theory Spec2Isabelle
  imports Main "HOL-Library.Sublist"
begin

section \<open>Strings\<close>

text \<open>
  Python's \<^verbatim>\<open>str\<close> is modelled by \<^typ>\<open>string\<close>. The two string methods that
  \<^verbatim>\<open>create_plugin\<close> calls are \<^verbatim>\<open>str.startswith(prefix)\<close> and
  \<^verbatim>\<open>str.replace(old, new)\<close>; the latter replaces every non-overlapping occurrence of
  \<^verbatim>\<open>old\<close>, scanning from the left (and, for an empty \<^verbatim>\<open>old\<close>, inserts
  \<^verbatim>\<open>new\<close> before every character and at the end). A character outside ASCII stands
  as the bytes of its UTF-8 encoding; the patterns searched for are ASCII, so the
  methods act on the bytes as they act on the characters.
\<close>

fun startswith :: "string \<Rightarrow> string \<Rightarrow> bool" where
  "startswith s [] = True"
| "startswith [] (p # ps) = False"
| "startswith (c # cs) (p # ps) = (c = p \<and> startswith cs ps)"

function str_replace :: "string \<Rightarrow> string \<Rightarrow> string \<Rightarrow> string" where
  "str_replace [] old new = (if old = [] then new else [])"
| "str_replace (c # cs) old new =
     (if old = [] then new @ c # str_replace cs old new
      else if startswith (c # cs) old
        then new @ str_replace (drop (length old) (c # cs)) old new
      else c # str_replace cs old new)"
  by pat_completeness auto
termination
  by (relation "measure (\<lambda>(s, old, new). length s)") auto

definition unlines :: "string list \<Rightarrow> string" where
  "unlines ls = concat (map (\<lambda>l. l @ ''\<newline>'') ls)"

section \<open>Paths\<close>

text \<open>
  A \<^verbatim>\<open>pathlib.Path\<close> is modelled by the list of its components below the root
  directory (the output directory handed to \<^verbatim>\<open>create_plugin\<close> is absolute). The
  operator \<^verbatim>\<open>path / str\<close> splits the string at \<^verbatim>\<open>/\<close>, drops empty components
  and \<^verbatim>\<open>.\<close>, keeps \<^verbatim>\<open>..\<close>, and lets a string that starts with \<^verbatim>\<open>/\<close>
  replace the left operand. (A leading double slash, which pathlib keeps apart from the
  root, is read as the root.) \<^verbatim>\<open>str(path)\<close> joins the components with slashes.
\<close>

type_synonym path = "string list"

fun split_slash :: "string \<Rightarrow> string list" where
  "split_slash [] = [[]]"
| "split_slash (c # cs) =
     (if c = CHR ''/'' then [] # split_slash cs
      else (case split_slash cs of [] \<Rightarrow> [[c]] | f # fs \<Rightarrow> (c # f) # fs))"

definition parse_parts :: "string \<Rightarrow> path" where
  "parse_parts s = filter (\<lambda>x. x \<noteq> [] \<and> x \<noteq> ''.'') (split_slash s)"

definition joinpath :: "path \<Rightarrow> string \<Rightarrow> path" where
  "joinpath p s = (if startswith s ''/'' then parse_parts s else p @ parse_parts s)"

fun path_str :: "path \<Rightarrow> string" where
  "path_str [] = ''/''"
| "path_str (c # cs) = concat (map (\<lambda>x. ''/'' @ x) (c # cs))"

section \<open>The file system\<close>

text \<open>
  The file system maps the canonical location of every existing entry to a directory or
  to a regular file with its text; the root directory always exists. Path resolution
  walks the components from the root: every component that is traversed must be a
  directory, and \<^verbatim>\<open>..\<close> moves to the parent of the directory reached (the root is its
  own parent). Symbolic links, permissions and quotas are not modelled, so the errors
  are those of the structure: a missing parent, a regular file where a directory is
  needed, a directory where a regular file is written.
\<close>

datatype node = Dir | File string

type_synonym filesystem = "path \<Rightarrow> node option"

datatype oserror =
  FileNotFoundError | NotADirectoryError | FileExistsError | IsADirectoryError

definition node_at :: "filesystem \<Rightarrow> path \<Rightarrow> node option" where
  "node_at fs p = (if p = [] then Some Dir else fs p)"

fun walk :: "filesystem \<Rightarrow> path \<Rightarrow> string list \<Rightarrow> oserror + path" where
  "walk fs cur [] = Inr cur"
| "walk fs cur (c # cs) =
     (let nxt = (if c = ''..'' then butlast cur else cur @ [c]) in
      case node_at fs nxt of
        None \<Rightarrow> Inl FileNotFoundError
      | Some (File t) \<Rightarrow> Inl NotADirectoryError
      | Some Dir \<Rightarrow> walk fs nxt cs)"

definition is_dir :: "filesystem \<Rightarrow> path \<Rightarrow> bool" where
  "is_dir fs p = (case walk fs [] p of Inl e \<Rightarrow> False | Inr d \<Rightarrow> True)"

text \<open>\<^verbatim>\<open>os.mkdir\<close>: the parent must resolve to a directory and the entry must be new.\<close>

definition os_mkdir :: "filesystem \<Rightarrow> path \<Rightarrow> oserror + filesystem" where
  "os_mkdir fs p =
     (if p = [] then Inl FileExistsError
      else case walk fs [] (butlast p) of
        Inl e \<Rightarrow> Inl e
      | Inr d \<Rightarrow>
          if last p = ''..'' then Inl FileExistsError
          else (case node_at fs (d @ [last p]) of
                  Some n \<Rightarrow> Inl FileExistsError
                | None \<Rightarrow> Inr (fs(d @ [last p] \<mapsto> Dir))))"

text \<open>
  \<^verbatim>\<open>Path.mkdir(parents=True, exist_ok=True)\<close>, as pathlib implements it: try
  \<^verbatim>\<open>os.mkdir\<close>; on \<^verbatim>\<open>FileNotFoundError\<close> create the parent the same way and try
  once more; any other error is swallowed exactly when the path is a directory.
\<close>

function path_mkdir :: "path \<Rightarrow> filesystem \<Rightarrow> oserror + filesystem" where
  "path_mkdir p fs =
     (case os_mkdir fs p of
        Inr fs' \<Rightarrow> Inr fs'
      | Inl FileNotFoundError \<Rightarrow>
          if p = [] then Inl FileNotFoundError
          else (case path_mkdir (butlast p) fs of
                  Inl e \<Rightarrow> Inl e
                | Inr fs1 \<Rightarrow>
                    (case os_mkdir fs1 p of
                       Inr fs2 \<Rightarrow> Inr fs2
                     | Inl FileNotFoundError \<Rightarrow> Inl FileNotFoundError
                     | Inl e \<Rightarrow> if is_dir fs1 p then Inr fs1 else Inl e))
      | Inl e \<Rightarrow> if is_dir fs p then Inr fs else Inl e)"
  by pat_completeness auto
termination
  by (relation "measure (\<lambda>(p, fs). length p)") auto

declare path_mkdir.simps [simp del]

text \<open>
  \<^verbatim>\<open>Path.write_text\<close> opens the file for writing: it creates the file or replaces its
  text. \<^verbatim>\<open>read_text\<close> is what a later reader of the file sees.
\<close>

definition write_text :: "path \<Rightarrow> string \<Rightarrow> filesystem \<Rightarrow> oserror + filesystem" where
  "write_text p t fs =
     (if p = [] then Inl IsADirectoryError
      else case walk fs [] (butlast p) of
        Inl e \<Rightarrow> Inl e
      | Inr d \<Rightarrow>
          if last p = ''..'' then Inl IsADirectoryError
          else (case node_at fs (d @ [last p]) of
                  Some Dir \<Rightarrow> Inl IsADirectoryError
                | _ \<Rightarrow> Inr (fs(d @ [last p] \<mapsto> File t))))"

definition read_text :: "filesystem \<Rightarrow> path \<Rightarrow> oserror + string" where
  "read_text fs p =
     (if p = [] then Inl IsADirectoryError
      else case walk fs [] (butlast p) of
        Inl e \<Rightarrow> Inl e
      | Inr d \<Rightarrow>
          if last p = ''..'' then Inl IsADirectoryError
          else (case node_at fs (d @ [last p]) of
                  None \<Rightarrow> Inl FileNotFoundError
                | Some Dir \<Rightarrow> Inl IsADirectoryError
                | Some (File t) \<Rightarrow> Inr t))"

section \<open>Effects and their execution\<close>

text \<open>
  The world a run acts on is the file system and the lines printed so far. Each
  statement of \<^verbatim>\<open>create_plugin\<close> that has an effect is one \<open>effect\<close>; statements run
  in order, and the first one that raises ends the run with the world as it then is:
  the result is the error raised, or unit, together with that world.
\<close>

record world =
  files :: filesystem
  stdout :: "string list"

datatype effect = Print string | Mkdir path | WriteText path string

fun perform :: "effect \<Rightarrow> world \<Rightarrow> oserror + world" where
  "perform (Print s) w = Inr (w\<lparr>stdout := stdout w @ [s]\<rparr>)"
| "perform (Mkdir p) w =
     (case path_mkdir p (files w) of Inl e \<Rightarrow> Inl e | Inr fs \<Rightarrow> Inr (w\<lparr>files := fs\<rparr>))"
| "perform (WriteText p t) w =
     (case write_text p t (files w) of Inl e \<Rightarrow> Inl e | Inr fs \<Rightarrow> Inr (w\<lparr>files := fs\<rparr>))"

fun run :: "effect list \<Rightarrow> world \<Rightarrow> (oserror + unit) \<times> world" where
  "run [] w = (Inr (), w)"
| "run (x # xs) w = (case perform x w of Inl e \<Rightarrow> (Inl e, w) | Inr w' \<Rightarrow> run xs w')"

section \<open>The templates\<close>

definition pyproject :: "string \<Rightarrow> string \<Rightarrow> string" where
  \<open>pyproject name module_name = unlines
    [''[project]'',
     ''name = "'' @ name @ ''"'',
     ''version = "0.1.0"'',
     ''description = "A Datasette plugin"'',
     ''readme = "README.md"'',
     ''requires-python = ">=3.10"'',
     ''license = {text = "Apache-2.0"}'',
     ''authors = ['',
     ''    {name = "Your Name", email = "you@example.com"}'',
     '']'',
     ''dependencies = ['',
     ''    "datasette"'',
     '']'',
     ''[dependency-groups]'',
     ''dev = ['',
     ''    "pytest",'',
     ''    "pytest-asyncio"'',
     '']'',
     '''',
     ''[project.entry-points.datasette]'',
     str_replace module_name ''datasette_'' '''' @ '' = "'' @ module_name @ ''"'',
     '''',
     ''[build-system]'',
     ''requires = ["setuptools>=61.0"]'',
     ''build-backend = "setuptools.build_meta"'']\<close>

definition readme :: "string \<Rightarrow> string" where
  \<open>readme name = unlines
    [''# '' @ name,
     '''',
     ''A Datasette plugin.'',
     '''',
     ''## Installation'',
     '''',
     ''```bash'',
     ''pip install '' @ name,
     ''```'',
     '''',
     ''Or install directly from this repository:'',
     '''',
     ''```bash'',
     ''pip install -e .'',
     ''```'',
     '''',
     ''## Usage'',
     '''',
     ''This plugin adds [describe functionality here].'',
     '''',
     ''## Configuration'',
     '''',
     ''Add to your `datasette.yaml`:'',
     '''',
     ''```yaml'',
     ''plugins:'',
     ''  '' @ name @ '':'',
     ''    option1: value1'',
     ''```'',
     '''',
     ''## Development'',
     '''',
     ''```bash'',
     ''pip install -e ".[test]"'',
     ''pytest'',
     ''```'']\<close>

definition init_py :: "string \<Rightarrow> string" where
  \<open>init_py name = unlines
    [''"""'',
     name,
     '''',
     ''A Datasette plugin.'',
     ''"""'',
     '''',
     ''from datasette import hookimpl'',
     '''',
     ''__version__ = "0.1.0"'',
     '''',
     '''',
     ''@hookimpl'',
     ''def prepare_connection(conn):'',
     ''    """Register custom SQL functions."""'',
     ''    # Example: Register a custom function'',
     ''    # conn.create_function("my_function", 1, lambda x: x.upper())'',
     ''    pass'',
     '''',
     '''',
     ''# Uncomment and customize the hooks you need:'',
     '''',
     ''# @hookimpl'',
     ''# def register_routes():'',
     ''#     """Register custom URL routes."""'',
     ''#     return ['',
     ''#         (r"^/-/my-page$", my_page_view),'',
     ''#     ]'',
     '''',
     '''',
     ''# async def my_page_view(datasette, request):'',
     ''#     from datasette import Response'',
     ''#     return Response.html("<h1>My Custom Page</h1>")'',
     '''',
     '''',
     ''# @hookimpl'',
     ''# def startup(datasette):'',
     ''#     """Run on server startup."""'',
     ''#     async def inner():'',
     ''#         config = datasette.plugin_config("'' @ name @ ''") or {}'',
     ''#         # Initialize plugin'',
     ''#         pass'',
     ''#     return inner'',
     '''',
     '''',
     ''# @hookimpl'',
     ''# def menu_links(datasette, actor):'',
     ''#     """Add items to the navigation menu."""'',
     ''#     return ['',
     ''#         {"href": datasette.urls.path("/-/my-page"), "label": "My Feature"}'',
     ''#     ]'',
     '''',
     '''',
     ''# @hookimpl'',
     ''# def render_cell(value, column, table, database, datasette, request):'',
     ''#     """Customize cell rendering in table view."""'',
     ''#     return None  # Return None to use default rendering'']\<close>

definition test_py :: "string \<Rightarrow> string" where
  \<open>test_py name = unlines
    [''"""Tests for '' @ name @ ''."""'',
     '''',
     ''from datasette.app import Datasette'',
     ''import pytest'',
     '''',
     '''',
     ''@pytest.mark.asyncio'',
     ''async def test_plugin_is_installed():'',
     ''    """Test that the plugin is properly installed."""'',
     ''    datasette = Datasette(memory=True)'',
     ''    response = await datasette.client.get("/-/plugins.json")'',
     ''    assert response.status_code == 200'',
     ''    installed_plugins = {p["name"] for p in response.json()}'',
     ''    assert "'' @ name @ ''" in installed_plugins'',
     '''',
     '''',
     ''# Add more tests for your plugin functionality:'',
     '''',
     ''# @pytest.mark.asyncio'',
     ''# async def test_custom_route():'',
     ''#     datasette = Datasette(memory=True)'',
     ''#     response = await datasette.client.get("/-/my-page")'',
     ''#     assert response.status_code == 200'',
     '''',
     '''',
     ''# @pytest.mark.asyncio'',
     ''# async def test_custom_sql_function():'',
     ''#     datasette = Datasette(memory=True)'',
     ''#     response = await datasette.client.get('',
     ''#         "/_memory.json?sql=select+my_function(\'test\')"'',
     ''#     )'',
     ''#     assert response.status_code == 200'']\<close>

definition pytest_ini :: "string" where
  \<open>pytest_ini = unlines
    [''[pytest]'',
     ''asyncio_mode = auto'']\<close>

definition gitignore :: "string" where
  \<open>gitignore = unlines
    [''__pycache__/'',
     ''*.py[cod]'',
     ''*$py.class'',
     ''*.egg-info/'',
     ''dist/'',
     ''build/'',
     ''.eggs/'',
     ''*.egg'',
     ''.pytest_cache/'',
     ''.coverage'',
     ''htmlcov/'',
     ''.venv/'',
     ''venv/'']\<close>


section \<open>The generator\<close>

text \<open>
  \<^verbatim>\<open>create_plugin(name, output_dir)\<close>: the statements it executes, in the order of the
  source, and their run on a world. The command line wrapper \<^verbatim>\<open>main\<close>, which resolves
  the output directory and makes it when it is missing, is not part of the model: the
  output directory is any absolute path.
\<close>

definition warning :: string where
  \<open>warning = ''Warning: Plugin name should start with 'datasette-'' @ [CHR 0x27]\<close>

definition create_plugin_effects :: "string \<Rightarrow> path \<Rightarrow> effect list" where
  \<open>create_plugin_effects name output_dir =
     (let module_name = str_replace name ''-'' ''_'';
          plugin_dir = joinpath output_dir name;
          module_dir = joinpath plugin_dir module_name;
          tests_dir = joinpath plugin_dir ''tests''
      in (if \<not> startswith name ''datasette-'' then [Print warning] else [])
         @ map Mkdir [plugin_dir, module_dir, tests_dir]
         @ [WriteText (joinpath plugin_dir ''pyproject.toml'') (pyproject name module_name),
            WriteText (joinpath plugin_dir ''README.md'') (readme name),
            WriteText (joinpath module_dir ''__init__.py'') (init_py name),
            WriteText (joinpath tests_dir ''__init__.py'') '''',
            WriteText (joinpath tests_dir (''test_'' @ module_name @ ''.py'')) (test_py name),
            WriteText (joinpath plugin_dir ''pytest.ini'') pytest_ini,
            WriteText (joinpath plugin_dir ''.gitignore'') gitignore,
            Print (''Created plugin at: '' @ path_str plugin_dir),
            Print ''\<newline>Next steps:'',
            Print (''  cd '' @ path_str plugin_dir),
            Print (''  pip install -e '.[test]'' @ [CHR 0x27]),
            Print ''  pytest''])\<close>

definition create_plugin :: "string \<Rightarrow> path \<Rightarrow> world \<Rightarrow> (oserror + unit) \<times> world" where
  "create_plugin name output_dir w = run (create_plugin_effects name output_dir) w"


section \<open>Notions used in the statements and proofs\<close>

text \<open>
  One file system grows into another when every directory is still a directory and
  every regular file is still a regular file (its text may have changed).
\<close>

definition grows :: "filesystem \<Rightarrow> filesystem \<Rightarrow> bool" where
  "grows fs fs' =
     (\<forall>q. (fs q = Some Dir \<longrightarrow> fs' q = Some Dir)
        \<and> (\<forall>t. fs q = Some (File t) \<longrightarrow> (\<exists>t'. fs' q = Some (File t'))))"

text \<open>The location at which \<open>write_text\<close> stores the text of a path, when it succeeds.\<close>

definition target :: "filesystem \<Rightarrow> path \<Rightarrow> path" where
  "target fs p = (case walk fs [] (butlast p) of Inl e \<Rightarrow> [] | Inr d \<Rightarrow> d @ [last p])"

text \<open>The locations that the completed writes of a run store a text at.\<close>

fun written :: "effect list \<Rightarrow> world \<Rightarrow> path set" where
  "written [] w = {}"
| "written (x # xs) w =
     (case perform x w of
        Inl e \<Rightarrow> {}
      | Inr w' \<Rightarrow>
          (case x of WriteText p t \<Rightarrow> {target (files w) p} | _ \<Rightarrow> {}) \<union> written xs w')"

text \<open>A path is a regular file when its text can be read.\<close>

definition is_file :: "filesystem \<Rightarrow> path \<Rightarrow> bool" where
  "is_file fs p = (case read_text fs p of Inl e \<Rightarrow> False | Inr t \<Rightarrow> True)"

text \<open>What a completed statement leaves behind, whatever the later statements do.\<close>

definition left_behind :: "effect \<Rightarrow> world \<Rightarrow> bool" where
  "left_behind x w =
     (case x of
        Print s \<Rightarrow> s \<in> set (stdout w)
      | Mkdir p \<Rightarrow> is_dir (files w) p
      | WriteText p t \<Rightarrow> is_file (files w) p)"

text \<open>
  A name that is one path component: not empty, without a separator, and neither the
  directory itself nor its parent.
\<close>

definition single_component :: "string \<Rightarrow> bool" where
  "single_component s = (s \<noteq> [] \<and> CHR ''/'' \<notin> set s \<and> s \<noteq> ''.'' \<and> s \<noteq> ''..'')"

text \<open>
  The local variables of \<^verbatim>\<open>create_plugin\<close> as functions of its arguments, and the seven
  files with the texts written to them, in the order of the writes.
\<close>

definition module_name_of :: "string \<Rightarrow> string" where
  "module_name_of name = str_replace name ''-'' ''_''"

definition plugin_dir :: "path \<Rightarrow> string \<Rightarrow> path" where
  "plugin_dir output_dir name = joinpath output_dir name"

definition module_dir :: "path \<Rightarrow> string \<Rightarrow> path" where
  "module_dir output_dir name = joinpath (plugin_dir output_dir name) (module_name_of name)"

definition tests_dir :: "path \<Rightarrow> string \<Rightarrow> path" where
  "tests_dir output_dir name = joinpath (plugin_dir output_dir name) ''tests''"

definition manifest_file :: "path \<Rightarrow> string \<Rightarrow> path" where
  "manifest_file output_dir name = joinpath (plugin_dir output_dir name) ''pyproject.toml''"

definition readme_file :: "path \<Rightarrow> string \<Rightarrow> path" where
  "readme_file output_dir name = joinpath (plugin_dir output_dir name) ''README.md''"

definition module_entry_file :: "path \<Rightarrow> string \<Rightarrow> path" where
  "module_entry_file output_dir name = joinpath (module_dir output_dir name) ''__init__.py''"

definition marker_file :: "path \<Rightarrow> string \<Rightarrow> path" where
  "marker_file output_dir name = joinpath (tests_dir output_dir name) ''__init__.py''"

definition test_file :: "path \<Rightarrow> string \<Rightarrow> path" where
  "test_file output_dir name =
     joinpath (tests_dir output_dir name) (''test_'' @ module_name_of name @ ''.py'')"

definition test_config_file :: "path \<Rightarrow> string \<Rightarrow> path" where
  "test_config_file output_dir name = joinpath (plugin_dir output_dir name) ''pytest.ini''"

definition ignore_file :: "path \<Rightarrow> string \<Rightarrow> path" where
  "ignore_file output_dir name = joinpath (plugin_dir output_dir name) ''.gitignore''"

definition generated_files :: "path \<Rightarrow> string \<Rightarrow> (path \<times> string) list" where
  "generated_files output_dir name =
     [(manifest_file output_dir name, pyproject name (module_name_of name)),
      (readme_file output_dir name, readme name),
      (module_entry_file output_dir name, init_py name),
      (marker_file output_dir name, ''''),
      (test_file output_dir name, test_py name),
      (test_config_file output_dir name, pytest_ini),
      (ignore_file output_dir name, gitignore)]"

definition warn_effects :: "string \<Rightarrow> effect list" where
  "warn_effects name = (if \<not> startswith name ''datasette-'' then [Print warning] else [])"

definition mkdir_effects :: "path \<Rightarrow> string \<Rightarrow> effect list" where
  "mkdir_effects output_dir name =
     map Mkdir [plugin_dir output_dir name, module_dir output_dir name, tests_dir output_dir name]"

definition write_effects :: "path \<Rightarrow> string \<Rightarrow> effect list" where
  "write_effects output_dir name =
     map (\<lambda>(p, t). WriteText p t) (generated_files output_dir name)"

definition print_effects :: "path \<Rightarrow> string \<Rightarrow> effect list" where
  "print_effects output_dir name =
     [Print (''Created plugin at: '' @ path_str (plugin_dir output_dir name)),
      Print ''\<newline>Next steps:'',
      Print (''  cd '' @ path_str (plugin_dir output_dir name)),
      Print (''  pip install -e '.[test]'' @ [CHR 0x27]),
      Print ''  pytest'']"


text \<open>
  Notions for the run of a single-component name: a regular file at a location, a file
  system with the missing ones of some directories added, the directories and the file
  system that a successful run leaves, the worlds on which nothing is in the way (no
  regular file where a directory is needed, no directory where a file is written), the
  lines a successful run prints, and the names of the files written to the project root.
\<close>

definition file_at :: "filesystem \<Rightarrow> path \<Rightarrow> bool" where
  "file_at fs q = (case fs q of Some (File t) \<Rightarrow> True | _ \<Rightarrow> False)"

definition with_dirs :: "filesystem \<Rightarrow> path list \<Rightarrow> filesystem" where
  "with_dirs fs ps = (\<lambda>q. if q \<in> set ps \<and> fs q = None then Some Dir else fs q)"







text \<open>
  Python's \<^verbatim>\<open>str.removeprefix\<close>, which removes a leading prefix and nothing else: the
  key of the entry point as the specification words it.
\<close>

definition removeprefix :: "string \<Rightarrow> string \<Rightarrow> string" where
  "removeprefix s p = (if startswith s p then drop (length p) s else s)"


section \<open>String and file system lemmas\<close>

lemma startswith_iff: "startswith s p = (\<exists>r. s = p @ r)"
  by (induction s p rule: startswith.induct) auto

lemma startswith_take: "startswith s p = (take (length p) s = p)"
  by (induction s p rule: startswith.induct) auto

lemma str_replace_char:
  "str_replace s [a] [b] = map (\<lambda>c. if c = a then b else c) s"
  by (induction s) auto

lemma grows_refl: "grows fs fs"
  by (simp add: grows_def)

lemma grows_trans: "grows a b \<Longrightarrow> grows b c \<Longrightarrow> grows a c"
  unfolding grows_def by metis

lemma grows_upd_new: "fs q = None \<Longrightarrow> grows fs (fs(q \<mapsto> n))"
  by (auto simp: grows_def)

lemma grows_upd_file: "fs q \<noteq> Some Dir \<Longrightarrow> grows fs (fs(q \<mapsto> File t))"
  by (auto simp: grows_def)

lemma node_at_grows: "grows fs fs' \<Longrightarrow> node_at fs p = Some Dir \<Longrightarrow> node_at fs' p = Some Dir"
  by (auto simp: grows_def node_at_def split: if_splits)

lemma walk_grows: "grows fs fs' \<Longrightarrow> walk fs cur cs = Inr d \<Longrightarrow> walk fs' cur cs = Inr d"
proof (induction cs arbitrary: cur)
  case Nil
  then show ?case by simp
next
  case (Cons c cs)
  let ?nxt = "if c = ''..'' then butlast cur else cur @ [c]"
  from Cons.prems(2) have n: "node_at fs ?nxt = Some Dir" and w: "walk fs ?nxt cs = Inr d"
    by (auto simp: Let_def split: option.splits node.splits)
  from node_at_grows [OF Cons.prems(1) n] Cons.IH [OF Cons.prems(1) w]
  show ?case by (simp add: Let_def)
qed

lemma walk_append:
  "walk fs cur (xs @ ys) = (case walk fs cur xs of Inl e \<Rightarrow> Inl e | Inr d \<Rightarrow> walk fs d ys)"
  by (induction xs arbitrary: cur) (auto simp: Let_def split: option.splits node.splits)

lemma walk_snoc:
  "walk fs [] (xs @ [c]) =
     (case walk fs [] xs of
        Inl e \<Rightarrow> Inl e
      | Inr d \<Rightarrow>
          (case node_at fs (if c = ''..'' then butlast d else d @ [c]) of
             None \<Rightarrow> Inl FileNotFoundError
           | Some (File t) \<Rightarrow> Inl NotADirectoryError
           | Some Dir \<Rightarrow> Inr (if c = ''..'' then butlast d else d @ [c])))"
  by (simp add: walk_append Let_def split: sum.splits option.splits node.splits)

lemma walk_last:
  "p \<noteq> [] \<Longrightarrow> walk fs [] p =
     (case walk fs [] (butlast p) of
        Inl e \<Rightarrow> Inl e
      | Inr d \<Rightarrow>
          (case node_at fs (if last p = ''..'' then butlast d else d @ [last p]) of
             None \<Rightarrow> Inl FileNotFoundError
           | Some (File t) \<Rightarrow> Inl NotADirectoryError
           | Some Dir \<Rightarrow> Inr (if last p = ''..'' then butlast d else d @ [last p])))"
  using walk_snoc [of fs "butlast p" "last p"] by simp

lemma os_mkdir_Inr:
  "os_mkdir fs p = Inr fs' \<Longrightarrow>
     \<exists>d. p \<noteq> [] \<and> walk fs [] (butlast p) = Inr d \<and> last p \<noteq> ''..''
        \<and> fs (d @ [last p]) = None \<and> fs' = fs(d @ [last p] \<mapsto> Dir)"
  by (auto simp: os_mkdir_def node_at_def split: if_splits sum.splits option.splits)

lemma os_mkdir_grows: "os_mkdir fs p = Inr fs' \<Longrightarrow> grows fs fs'"
  by (auto dest!: os_mkdir_Inr intro: grows_upd_new)

lemma os_mkdir_is_dir: 
  assumes "os_mkdir fs p = Inr fs'" shows "is_dir fs' p"
proof -
  from os_mkdir_Inr [OF assms] obtain d where d: "p \<noteq> []" "walk fs [] (butlast p) = Inr d"
    "last p \<noteq> ''..''" "fs (d @ [last p]) = None" "fs' = fs(d @ [last p] \<mapsto> Dir)"
    by blast
  have "walk fs' [] (butlast p) = Inr d"
    using walk_grows [OF os_mkdir_grows [OF assms] d(2)] .
  then have "walk fs' [] p = Inr (d @ [last p])"
    using d by (simp add: walk_last node_at_def)
  then show ?thesis by (simp add: is_dir_def)
qed

lemma os_mkdir_old: "os_mkdir fs p = Inr fs' \<Longrightarrow> fs q \<noteq> None \<Longrightarrow> fs' q = fs q"
  by (auto dest!: os_mkdir_Inr)

lemma path_mkdir_props:
  "path_mkdir p fs = Inr fs' \<Longrightarrow> grows fs fs' \<and> is_dir fs' p \<and> (\<forall>q. fs q \<noteq> None \<longrightarrow> fs' q = fs q)"
proof (induction p fs arbitrary: fs' rule: path_mkdir.induct)
  case (1 p fs)
  show ?case
  proof (cases "os_mkdir fs p")
    case (Inr a)
    with "1.prems" have "fs' = a" by (simp add: path_mkdir.simps [of p fs])
    with Inr show ?thesis by (auto intro: os_mkdir_grows os_mkdir_is_dir os_mkdir_old)
  next
    case (Inl e)
    show ?thesis
    proof (cases "e = FileNotFoundError")
      case False
      with Inl "1.prems" have "is_dir fs p \<and> fs' = fs"
        by (cases e) (auto simp: path_mkdir.simps [of p fs] split: if_splits)
      then show ?thesis by (simp add: grows_refl)
    next
      case True
      with Inl "1.prems" obtain fs1 where p: "p \<noteq> []" and
        m: "path_mkdir (butlast p) fs = Inr fs1" and
        r: "(case os_mkdir fs1 p of
                       Inr fs2 \<Rightarrow> Inr fs2
                     | Inl FileNotFoundError \<Rightarrow> Inl FileNotFoundError
                     | Inl e \<Rightarrow> if is_dir fs1 p then Inr fs1 else Inl e) = Inr fs'"
        by (auto simp: path_mkdir.simps [of p fs] split: if_splits sum.splits)
      from "1.IH" [OF Inl True p m] have ih: "grows fs fs1" "\<forall>q. fs q \<noteq> None \<longrightarrow> fs1 q = fs q"
        by auto
      show ?thesis
      proof (cases "os_mkdir fs1 p")
        case (Inr fs2)
        with r have "fs' = fs2" by simp
        have "fs2 q = fs q" if "fs q \<noteq> None" for q
        proof -
          from that ih(2) have "fs1 q = fs q" by simp
          with that os_mkdir_old [OF Inr, of q] show ?thesis by simp
        qed
        with Inr ih(1) \<open>fs' = fs2\<close> show ?thesis
          by (auto intro: os_mkdir_is_dir grows_trans [OF ih(1) os_mkdir_grows])
      next
        case (Inl e2)
        with r have "is_dir fs1 p \<and> fs' = fs1"
          by (cases e2) (auto split: if_splits)
        with ih show ?thesis by simp
      qed
    qed
  qed
qed

lemma path_mkdir_existing:
  assumes "is_dir fs p" shows "path_mkdir p fs = Inr fs"
proof -
  have "os_mkdir fs p = Inl FileExistsError"
  proof (cases "p = []")
    case True
    then show ?thesis by (simp add: os_mkdir_def)
  next
    case False
    from assms obtain d where "walk fs [] p = Inr d"
      unfolding is_dir_def by (auto split: sum.splits)
    then show ?thesis using False
      by (auto simp: walk_last os_mkdir_def split: sum.splits option.splits node.splits if_splits)
  qed
  with assms show ?thesis by (simp add: path_mkdir.simps [of p fs])
qed

lemma write_text_Inr:
  "write_text p t fs = Inr fs' \<Longrightarrow>
     \<exists>d. p \<noteq> [] \<and> walk fs [] (butlast p) = Inr d \<and> last p \<noteq> ''..''
        \<and> fs (d @ [last p]) \<noteq> Some Dir \<and> fs' = fs(d @ [last p] \<mapsto> File t)"
  by (auto simp: write_text_def node_at_def split: if_splits sum.splits option.splits node.splits)

lemma write_text_grows: "write_text p t fs = Inr fs' \<Longrightarrow> grows fs fs'"
  by (auto dest!: write_text_Inr intro: grows_upd_file)

lemma write_text_target: "write_text p t fs = Inr fs' \<Longrightarrow> fs' = fs(target fs p \<mapsto> File t)"
  by (auto dest!: write_text_Inr simp: target_def)

lemma write_then_read:
  assumes "write_text p t fs = Inr fs'" shows "read_text fs' p = Inr t"
proof -
  from write_text_Inr [OF assms] obtain d where d: "p \<noteq> []"
    "walk fs [] (butlast p) = Inr d" "last p \<noteq> ''..''" "fs' = fs(d @ [last p] \<mapsto> File t)"
    by blast
  have "walk fs' [] (butlast p) = Inr d"
    using walk_grows [OF write_text_grows [OF assms] d(2)] .
  with d show ?thesis by (simp add: read_text_def node_at_def)
qed

lemma read_text_Inr:
  "read_text fs p = Inr t \<Longrightarrow>
     \<exists>d. p \<noteq> [] \<and> walk fs [] (butlast p) = Inr d \<and> last p \<noteq> ''..''
        \<and> fs (d @ [last p]) = Some (File t)"
  by (auto simp: read_text_def node_at_def split: if_splits sum.splits option.splits node.splits)

lemma read_text_grows:
  assumes "grows fs g" and "read_text fs p = Inr t" shows "\<exists>t'. read_text g p = Inr t'"
proof -
  from read_text_Inr [OF assms(2)] obtain d where d: "p \<noteq> []"
    "walk fs [] (butlast p) = Inr d" "last p \<noteq> ''..''" "fs (d @ [last p]) = Some (File t)"
    by blast
  from assms(1) d(4) obtain t' where "g (d @ [last p]) = Some (File t')"
    unfolding grows_def by blast
  with walk_grows [OF assms(1) d(2)] d(1,3) show ?thesis
    by (simp add: read_text_def node_at_def)
qed

lemma is_file_iff: "is_file fs p \<longleftrightarrow> (\<exists>t. read_text fs p = Inr t)"
  by (auto simp: is_file_def split: sum.splits)

section \<open>Path lemmas\<close>

lemma split_slash_no_sep: "CHR ''/'' \<notin> set s \<Longrightarrow> split_slash s = [s]"
  by (induction s) auto

lemma split_slash_nonempty: "split_slash s \<noteq> []"
  by (induction s) (auto split: list.splits)

lemma split_slash_append:
  "CHR ''/'' \<notin> set t \<Longrightarrow> split_slash (s @ t) = butlast (split_slash s) @ [last (split_slash s) @ t]"
proof (induction s)
  case Nil
  then show ?case by (simp add: split_slash_no_sep)
next
  case (Cons c s)
  then show ?case
    using split_slash_nonempty [of s] split_slash_nonempty [of "s @ t"]
    by (auto split: list.splits)
qed

lemma parse_parts_single: "single_component s \<Longrightarrow> parse_parts s = [s]"
  by (simp add: single_component_def parse_parts_def split_slash_no_sep)

lemma joinpath_single: "single_component s \<Longrightarrow> joinpath p s = p @ [s]"
  by (cases s) (auto simp: joinpath_def parse_parts_single single_component_def)

lemma joinpath_literals:
  "joinpath p ''tests'' = p @ [''tests'']"
  "joinpath p ''pyproject.toml'' = p @ [''pyproject.toml'']"
  "joinpath p ''README.md'' = p @ [''README.md'']"
  "joinpath p ''__init__.py'' = p @ [''__init__.py'']"
  "joinpath p ''pytest.ini'' = p @ [''pytest.ini'']"
  "joinpath p ''.gitignore'' = p @ [''.gitignore'']"
  by (simp_all add: joinpath_def parse_parts_def)

lemma single_component_module:
  assumes "single_component name" shows "single_component (str_replace name ''-'' ''_'')"
proof -
  let ?f = "\<lambda>c. if c = CHR ''-'' then CHR ''_'' else c"
  have dot: "?f c = CHR ''.'' \<longleftrightarrow> c = CHR ''.''" for c by simp
  have "map ?f name \<noteq> ''.''"
  proof
    assume "map ?f name = ''.''"
    then obtain c where "name = [c]" "?f c = CHR ''.''" by auto
    with dot [of c] assms show False by (simp add: single_component_def)
  qed
  moreover have "map ?f name \<noteq> ''..''"
  proof
    assume "map ?f name = ''..''"
    then obtain c d where "name = [c, d]" "?f c = CHR ''.''" "?f d = CHR ''.''" by auto
    with dot [of c] dot [of d] assms show False by (simp add: single_component_def)
  qed
  moreover have "CHR ''/'' \<notin> set (map ?f name)"
    using assms by (auto simp: single_component_def)
  ultimately show ?thesis
    using assms by (simp add: str_replace_char single_component_def)
qed

lemma test_file_single:
  "CHR ''/'' \<notin> set m \<Longrightarrow> single_component (''test_'' @ m @ ''.py'')"
  by (simp add: single_component_def)

lemma test_file_last:
  "\<exists>x. last (joinpath d (''test_'' @ m @ ''.py'')) = x @ ''.py''"
proof -
  have "split_slash ((''test_'' @ m) @ ''.py'')
      = butlast (split_slash (''test_'' @ m)) @ [last (split_slash (''test_'' @ m)) @ ''.py'']"
    by (rule split_slash_append) simp
  then have "parse_parts (''test_'' @ m @ ''.py'')
      = filter (\<lambda>x. x \<noteq> [] \<and> x \<noteq> ''.'') (butlast (split_slash (''test_'' @ m)))
        @ [last (split_slash (''test_'' @ m)) @ ''.py'']"
    by (simp add: parse_parts_def)
  then show ?thesis by (simp add: joinpath_def)
qed

lemma py_not_fixed:
  "x @ ''.py'' \<noteq> ''pyproject.toml''" "x @ ''.py'' \<noteq> ''README.md''"
  "x @ ''.py'' \<noteq> ''pytest.ini''" "x @ ''.py'' \<noteq> ''.gitignore''"
proof -
  have l: "last (x @ ''.py'') = CHR ''y''" by simp
  show "x @ ''.py'' \<noteq> ''pyproject.toml''" using l by (auto dest: arg_cong [where f = last])
  show "x @ ''.py'' \<noteq> ''README.md''" using l by (auto dest: arg_cong [where f = last])
  show "x @ ''.py'' \<noteq> ''pytest.ini''" using l by (auto dest: arg_cong [where f = last])
  show "x @ ''.py'' \<noteq> ''.gitignore''" using l by (auto dest: arg_cong [where f = last])
qed


section \<open>Runs\<close>

lemma is_dir_grows: "grows fs fs' \<Longrightarrow> is_dir fs p \<Longrightarrow> is_dir fs' p"
  by (auto simp: is_dir_def dest: walk_grows split: sum.splits)

lemma write_text_again:
  assumes "write_text p t fs = Inr fs'" and "grows fs' g"
  shows "write_text p t g = Inr (g(target fs p \<mapsto> File t))"
proof -
  from write_text_Inr [OF assms(1)] obtain d where d: "p \<noteq> []"
    "walk fs [] (butlast p) = Inr d" "last p \<noteq> ''..''" "fs' = fs(d @ [last p] \<mapsto> File t)"
    by blast
  have "grows fs g"
    using grows_trans [OF write_text_grows [OF assms(1)] assms(2)] .
  then have w: "walk g [] (butlast p) = Inr d"
    using d(2) by (rule walk_grows)
  from d(4) have "fs' (d @ [last p]) = Some (File t)" by simp
  with assms(2) obtain t' where "g (d @ [last p]) = Some (File t')"
    unfolding grows_def by blast
  with w d(1,3) have "write_text p t g = Inr (g(d @ [last p] \<mapsto> File t))"
    by (simp add: write_text_def node_at_def)
  with d(2) show ?thesis by (simp add: target_def)
qed

lemma perform_grows: "perform x w = Inr w' \<Longrightarrow> grows (files w) (files w')"
  by (cases x)
     (auto simp: grows_refl split: sum.splits dest: path_mkdir_props write_text_grows)

lemma perform_stdout:
  "perform x w = Inr w' \<Longrightarrow>
     stdout w' = stdout w @ (case x of Print s \<Rightarrow> [s] | _ \<Rightarrow> [])"
  by (cases x) (auto split: sum.splits)

lemma perform_files_only:
  "files v = files w \<Longrightarrow> perform x w = Inl e \<Longrightarrow> perform x v = Inl e"
  by (cases x) (auto split: sum.splits)

lemma perform_old:
  "perform x w = Inr w' \<Longrightarrow> files w q \<noteq> None \<Longrightarrow>
     (\<forall>p t. x = WriteText p t \<longrightarrow> q \<noteq> target (files w) p) \<Longrightarrow> files w' q = files w q"
  by (cases x) (auto split: sum.splits dest: path_mkdir_props write_text_target)

lemma run_grows: "grows (files w) (files (snd (run es w)))"
proof (induction es arbitrary: w)
  case Nil
  show ?case by (simp add: grows_refl)
next
  case (Cons x xs)
  show ?case
  proof (cases "perform x w")
    case (Inl e)
    then show ?thesis by (simp add: grows_refl)
  next
    case (Inr w')
    with grows_trans [OF perform_grows [OF Inr] Cons.IH [of w']] show ?thesis by simp
  qed
qed

lemma written_file:
  "q \<in> written es w \<Longrightarrow> \<exists>t. files (snd (run es w)) q = Some (File t)"
proof (induction es arbitrary: w)
  case Nil
  then show ?case by simp
next
  case (Cons x xs)
  from Cons.prems obtain w' where w': "perform x w = Inr w'"
    by (cases "perform x w") auto
  show ?case
  proof (cases "q \<in> written xs w'")
    case True
    from Cons.IH [OF True] w' show ?thesis by simp
  next
    case False
    with Cons.prems w' obtain p t where x: "x = WriteText p t" and q: "q = target (files w) p"
      by (cases x) auto
    from w' x obtain fs where "write_text p t (files w) = Inr fs" and "files w' = fs"
      by (auto split: sum.splits)
    with q have "files w' q = Some (File t)"
      by (auto dest: write_text_target)
    with run_grows [of w' xs] obtain t' where "files (snd (run xs w')) q = Some (File t')"
      unfolding grows_def by blast
    with w' show ?thesis by simp
  qed
qed

lemma run_old:
  "files w q \<noteq> None \<Longrightarrow> q \<notin> written es w \<Longrightarrow> files (snd (run es w)) q = files w q"
proof (induction es arbitrary: w)
  case Nil
  then show ?case by simp
next
  case (Cons x xs)
  show ?case
  proof (cases "perform x w")
    case (Inl e)
    then show ?thesis by simp
  next
    case (Inr w')
    with Cons.prems(2) have nw: "q \<notin> written xs w'"
      and nt: "\<forall>p t. x = WriteText p t \<longrightarrow> q \<noteq> target (files w) p"
      by auto
    from perform_old [OF Inr Cons.prems(1) nt] have same: "files w' q = files w q" .
    with Cons.prems(1) have "files w' q \<noteq> None" by simp
    from Cons.IH [OF this nw] same Inr show ?thesis by simp
  qed
qed

text \<open>
  Replaying a run on a file system that differs from the run's result only in the texts
  of files that the run is still going to write ends with the same outcome and the same
  file system.
\<close>

lemma replay:
  "\<forall>q. files v q = files (snd (run es w)) q
        \<or> (q \<in> written es w \<and> (\<exists>t. files v q = Some (File t))) \<Longrightarrow>
   fst (run es v) = fst (run es w) \<and> files (snd (run es v)) = files (snd (run es w))"
proof (induction es arbitrary: w v)
  case Nil
  then show ?case by auto
next
  case (Cons x xs)
  show ?case
  proof (cases "perform x w")
    case (Inl e)
    with Cons.prems have same: "files v = files w" by auto
    from perform_files_only [OF same Inl] Inl same show ?thesis by simp
  next
    case (Inr w')
    define F where "F = files (snd (run xs w'))"
    from Inr have fin: "files (snd (run (x # xs) w)) = F" by (simp add: F_def)
    have cond: "files v q = F q \<or> (q \<in> written (x # xs) w \<and> (\<exists>t. files v q = Some (File t)))" for q
      using Cons.prems fin by auto
    have wF: "\<exists>t. F q = Some (File t)" if "q \<in> written (x # xs) w" for q
      using written_file [OF that] fin by simp
    have gFv: "grows F (files v)"
      unfolding grows_def
    proof (intro allI conjI impI)
      fix q assume "F q = Some Dir"
      with cond [of q] wF [of q] show "files v q = Some Dir" by auto
    next
      fix q t assume "F q = Some (File t)"
      with cond [of q] show "\<exists>t'. files v q = Some (File t')" by auto
    qed
    have gw'F: "grows (files w') F"
      unfolding F_def by (rule run_grows)
    have step: "\<exists>v'. perform x v = Inr v' \<and> (\<forall>q. files v' q = F q
        \<or> (q \<in> written xs w' \<and> (\<exists>t. files v' q = Some (File t))))"
    proof (cases x)
      case (Print s)
      with cond Inr show ?thesis by auto
    next
      case (Mkdir p)
      with Inr obtain fs1 where m: "path_mkdir p (files w) = Inr fs1" and "files w' = fs1"
        by (auto split: sum.splits)
      with path_mkdir_props [OF m] have "is_dir (files w') p" by simp
      then have "is_dir (files v) p"
        using is_dir_grows [OF gw'F] is_dir_grows [OF gFv] by blast
      then have "perform x v = Inr (v\<lparr>files := files v\<rparr>)"
        using Mkdir by (simp add: path_mkdir_existing)
      moreover have "written (x # xs) w = written xs w'"
        using Mkdir Inr by simp
      ultimately show ?thesis using cond by auto
    next
      case (WriteText p t)
      with Inr obtain fs1 where wt: "write_text p t (files w) = Inr fs1" and f1: "files w' = fs1"
        by (auto split: sum.splits)
      define d where "d = target (files w) p"
      from write_text_target [OF wt] f1 have w'd: "files w' = (files w)(d \<mapsto> File t)"
        by (simp add: d_def)
      have "grows fs1 (files v)"
        using grows_trans [OF gw'F gFv] f1 by simp
      from write_text_again [OF wt this]
      have pv: "perform x v = Inr (v\<lparr>files := (files v)(d \<mapsto> File t)\<rparr>)"
        using WriteText by (simp add: d_def)
      have wr: "written (x # xs) w = insert d (written xs w')"
        using WriteText Inr by (simp add: d_def)
      have "((files v)(d \<mapsto> File t)) q = F q
          \<or> (q \<in> written xs w' \<and> (\<exists>t'. ((files v)(d \<mapsto> File t)) q = Some (File t')))" for q
      proof (cases "q = d")
        case False
        with cond [of q] wr show ?thesis by auto
      next
        case True
        show ?thesis
        proof (cases "d \<in> written xs w'")
          case True
          with \<open>q = d\<close> show ?thesis by simp
        next
          case False
          from w'd have "files w' d \<noteq> None" by simp
          from run_old [OF this False] w'd have "F d = Some (File t)"
            by (simp add: F_def)
          with \<open>q = d\<close> show ?thesis by simp
        qed
      qed
      with pv show ?thesis by auto
    qed
    then obtain v' where v': "perform x v = Inr v'"
      and c': "\<forall>q. files v' q = files (snd (run xs w')) q
        \<or> (q \<in> written xs w' \<and> (\<exists>t. files v' q = Some (File t)))"
      unfolding F_def by blast
    from Cons.IH [OF c'] v' Inr show ?thesis by simp
  qed
qed

lemma run_twice:
  "fst (run es (snd (run es w))) = fst (run es w)
   \<and> files (snd (run es (snd (run es w)))) = files (snd (run es w))"
  by (rule replay) simp



lemma run_stdout_mono: "set (stdout w) \<subseteq> set (stdout (snd (run es w)))"
proof (induction es arbitrary: w)
  case Nil
  show ?case by simp
next
  case (Cons x xs)
  show ?case
  proof (cases "perform x w")
    case (Inl e)
    then show ?thesis by simp
  next
    case (Inr w1)
    from perform_stdout [OF Inr] have "set (stdout w) \<subseteq> set (stdout w1)" by auto
    with Cons.IH [of w1] Inr show ?thesis by auto
  qed
qed

lemma left_behind_perform: "perform x w = Inr w1 \<Longrightarrow> left_behind x w1"
  by (cases x)
     (auto simp: left_behind_def is_file_iff split: sum.splits dest: path_mkdir_props write_then_read)

lemma left_behind_run: "left_behind x w \<Longrightarrow> left_behind x (snd (run es w))"
  using run_grows [of w es] run_stdout_mono [of w es]
  by (cases x) (auto simp: left_behind_def is_file_iff dest: is_dir_grows read_text_grows)

lemma run_completed:
  "run es w = (Inr (), w') \<Longrightarrow> j < length es \<Longrightarrow> left_behind (es ! j) w'"
proof (induction es arbitrary: w j)
  case Nil
  then show ?case by simp
next
  case (Cons x xs)
  from Cons.prems(1) obtain w1 where w1: "perform x w = Inr w1" "run xs w1 = (Inr (), w')"
    by (cases "perform x w") auto
  show ?case
  proof (cases j)
    case 0
    from left_behind_run [OF left_behind_perform [OF w1(1)], of xs] w1(2) 0
    show ?thesis by simp
  next
    case (Suc i)
    with Cons.prems(2) Cons.IH [OF w1(2), of i] show ?thesis by simp
  qed
qed


section \<open>Failures\<close>


text \<open>The definitions that evaluate a run on a given world.\<close>

lemmas eval_defs = create_plugin_def create_plugin_effects_def joinpath_def parse_parts_def
      path_mkdir.simps os_mkdir_def write_text_def node_at_def is_dir_def Let_def


section \<open>Running twice\<close>

text \<open>
  Claim C3. A second run on the world that a first, successful run left raises no error
  and leaves the file system exactly as the first run left it: the files are written
  over with the same texts. More generally the second run always ends as the first one
  did, with an unchanged file system.
\<close>

theorem second_run_equals_first:
  "(fst (create_plugin name output_dir w) = Inr () \<longrightarrow>
      fst (create_plugin name output_dir (snd (create_plugin name output_dir w))) = Inr ()
      \<and> files (snd (create_plugin name output_dir (snd (create_plugin name output_dir w))))
          = files (snd (create_plugin name output_dir w)))
   \<and> fst (create_plugin name output_dir (snd (create_plugin name output_dir w)))
     = fst (create_plugin name output_dir w)
   \<and> files (snd (create_plugin name output_dir (snd (create_plugin name output_dir w))))
     = files (snd (create_plugin name output_dir w))"
  unfolding create_plugin_def using run_twice [of "create_plugin_effects name output_dir" w]
  by simp

theorem second_run_equals_first_witness:
  "fst (create_plugin ''datasette-x'' [''o''] \<lparr>files = Map.empty, stdout = []\<rparr>) = Inr ()
   \<and> fst (create_plugin ''datasette-x'' [''o'']
           (snd (create_plugin ''datasette-x'' [''o''] \<lparr>files = Map.empty, stdout = []\<rparr>)))
       = Inr ()
   \<and> files (snd (create_plugin ''datasette-x'' [''o'']
           (snd (create_plugin ''datasette-x'' [''o''] \<lparr>files = Map.empty, stdout = []\<rparr>))))
       = files (snd (create_plugin ''datasette-x'' [''o''] \<lparr>files = Map.empty, stdout = []\<rparr>))"
proof -
  have ok: "fst (create_plugin ''datasette-x'' [''o''] \<lparr>files = Map.empty, stdout = []\<rparr>)
      = Inr ()"
    by (simp add: eval_defs)
  from second_run_equals_first [of "''datasette-x''" "[''o'']"
      "\<lparr>files = Map.empty, stdout = []\<rparr>"] ok
  show ?thesis by blast
qed

lemma run_prints:
  "\<exists>ps. stdout (snd (run es w)) = stdout w @ ps \<and> set ps \<subseteq> {s. Print s \<in> set es}"
proof (induction es arbitrary: w)
  case Nil
  show ?case by simp
next
  case (Cons x xs)
  show ?case
  proof (cases "perform x w")
    case (Inl e)
    then show ?thesis by simp
  next
    case (Inr w1)
    from Cons.IH [of w1] obtain ps where ps: "stdout (snd (run xs w1)) = stdout w1 @ ps"
      "set ps \<subseteq> {s. Print s \<in> set xs}" by blast
    let ?qs = "(case x of Print s \<Rightarrow> [s] | _ \<Rightarrow> []) @ ps"
    from perform_stdout [OF Inr] ps(1) Inr
    have "stdout (snd (run (x # xs) w)) = stdout w @ ?qs" by simp
    moreover from ps(2) have "set ?qs \<subseteq> {s. Print s \<in> set (x # xs)}"
      by (cases x) auto
    ultimately show ?thesis by blast
  qed
qed

lemma warning_first:
  "\<not> startswith name ''datasette-'' \<Longrightarrow>
     create_plugin_effects name output_dir = Print warning # tl (create_plugin_effects name output_dir)"
  by (simp add: create_plugin_effects_def Let_def)

lemma no_warning_effect:
  "startswith name ''datasette-'' \<Longrightarrow> Print warning \<notin> set (create_plugin_effects name output_dir)"
  by (simp add: create_plugin_effects_def Let_def warning_def)

section \<open>The warning\<close>

text \<open>
  Claim C9. The run prints the warning exactly when the name does not begin with the
  ten characters \<^verbatim>\<open>datasette-\<close>, compared character by character; a name that begins
  with \<^verbatim>\<open>Datasette-\<close> does not begin with them.
\<close>

theorem warning_iff_prefix_missing:
  "(warning \<in> set (drop (length (stdout w)) (stdout (snd (create_plugin name output_dir w)))))
     = (\<not> startswith name ''datasette-'')
   \<and> startswith name ''datasette-'' = (\<exists>rest. name = ''datasette-'' @ rest)
   \<and> \<not> startswith (''Datasette-'' @ rest') ''datasette-''"
proof -
  let ?es = "create_plugin_effects name output_dir"
  have "warning \<in> set (drop (length (stdout w)) (stdout (snd (run ?es w))))"
    if n: "\<not> startswith name ''datasette-''"
  proof -
    let ?w1 = "w\<lparr>stdout := stdout w @ [warning]\<rparr>"
    have "run ?es w = run (tl ?es) ?w1"
      by (subst warning_first [OF n]) simp
    moreover from run_prints [of "tl ?es" ?w1] obtain ps
      where "stdout (snd (run (tl ?es) ?w1)) = stdout ?w1 @ ps" by blast
    ultimately show ?thesis by simp
  qed
  moreover have "warning \<notin> set (drop (length (stdout w)) (stdout (snd (run ?es w))))"
    if y: "startswith name ''datasette-''"
  proof -
    from run_prints [of ?es w] obtain ps where ps: "stdout (snd (run ?es w)) = stdout w @ ps"
      "set ps \<subseteq> {s. Print s \<in> set ?es}" by blast
    with no_warning_effect [OF y, of output_dir] show ?thesis by auto
  qed
  ultimately show ?thesis
    by (auto simp: create_plugin_def startswith_iff)
qed


section \<open>Reading back what a run wrote\<close>

lemma run_append:
  "run (xs @ ys) w =
     (case run xs w of (Inl e, w') \<Rightarrow> (Inl e, w') | (Inr u, w') \<Rightarrow> run ys w')"
  by (induction xs arbitrary: w) (auto split: sum.splits)

lemma run_success_append:
  "run (xs @ ys) w = (Inr (), w') \<longleftrightarrow>
     (\<exists>w1. run xs w = (Inr (), w1) \<and> run ys w1 = (Inr (), w'))"
  by (auto simp: run_append split: prod.splits sum.splits)

lemma run_success_Cons:
  "run (x # xs) w = (Inr (), w') \<longleftrightarrow>
     (\<exists>w1. perform x w = Inr w1 \<and> run xs w1 = (Inr (), w'))"
  by (auto split: sum.splits)

lemma path_mkdir_keeps_text:
  assumes "path_mkdir p' fs = Inr fs'" and "read_text fs p = Inr t"
  shows "read_text fs' p = Inr t"
proof -
  from read_text_Inr [OF assms(2)] obtain d where d: "p \<noteq> []"
    "walk fs [] (butlast p) = Inr d" "last p \<noteq> ''..''" "fs (d @ [last p]) = Some (File t)"
    by blast
  from path_mkdir_props [OF assms(1)]
  have g: "grows fs fs'" and o: "\<forall>q. fs q \<noteq> None \<longrightarrow> fs' q = fs q" by auto
  from o d(4) have "fs' (d @ [last p]) = Some (File t)" by simp
  with walk_grows [OF g d(2)] d(1,3) show ?thesis
    by (simp add: read_text_def node_at_def)
qed

lemma write_text_keeps_text:
  assumes "write_text p' t' fs = Inr fs'" and "read_text fs p = Inr t"
    and "last p' \<noteq> last p \<or> walk fs [] (butlast p') \<noteq> walk fs [] (butlast p)"
  shows "read_text fs' p = Inr t"
proof -
  from read_text_Inr [OF assms(2)] obtain d where d: "p \<noteq> []"
    "walk fs [] (butlast p) = Inr d" "last p \<noteq> ''..''" "fs (d @ [last p]) = Some (File t)"
    by blast
  from write_text_Inr [OF assms(1)] obtain d' where d': "p' \<noteq> []"
    "walk fs [] (butlast p') = Inr d'" "fs' = fs(d' @ [last p'] \<mapsto> File t')"
    by blast
  from assms(3) d(2) d'(2) have "d' @ [last p'] \<noteq> d @ [last p]" by auto
  with d'(3) d(4) have "fs' (d @ [last p]) = Some (File t)" by auto
  with walk_grows [OF write_text_grows [OF assms(1)] d(2)] d(1,3) show ?thesis
    by (simp add: read_text_def node_at_def)
qed

text \<open>
  A text that can be read stays as it is through a run none of whose writes goes to the
  same file: each write has another last component, or another directory.
\<close>

lemma run_keeps_text:
  "read_text (files w) p = Inr t \<Longrightarrow> grows fs0 (files w) \<Longrightarrow>
   (\<forall>p' t'. WriteText p' t' \<in> set es \<longrightarrow>
      last p' \<noteq> last p
      \<or> (\<exists>a b. walk fs0 [] (butlast p') = Inr a \<and> walk fs0 [] (butlast p) = Inr b \<and> a \<noteq> b)) \<Longrightarrow>
   read_text (files (snd (run es w))) p = Inr t"
proof (induction es arbitrary: w)
  case Nil
  then show ?case by simp
next
  case (Cons x xs)
  show ?case
  proof (cases "perform x w")
    case (Inl e)
    with Cons.prems(1) show ?thesis by simp
  next
    case (Inr w1)
    have g1: "grows fs0 (files w1)"
      using grows_trans [OF Cons.prems(2) perform_grows [OF Inr]] .
    have r1: "read_text (files w1) p = Inr t"
    proof (cases x)
      case (Print s)
      with Inr Cons.prems(1) show ?thesis by auto
    next
      case (Mkdir p')
      with Inr Cons.prems(1) show ?thesis
        by (auto split: sum.splits dest: path_mkdir_keeps_text)
    next
      case (WriteText p' t')
      with Inr obtain fs1 where wt: "write_text p' t' (files w) = Inr fs1" and f: "files w1 = fs1"
        by (auto split: sum.splits)
      from Cons.prems(3) WriteText
      have "last p' \<noteq> last p
        \<or> (\<exists>a b. walk fs0 [] (butlast p') = Inr a \<and> walk fs0 [] (butlast p) = Inr b \<and> a \<noteq> b)"
        by simp
      then have "last p' \<noteq> last p
        \<or> walk (files w) [] (butlast p') \<noteq> walk (files w) [] (butlast p)"
        using walk_grows [OF Cons.prems(2)] by auto
      from write_text_keeps_text [OF wt Cons.prems(1) this] f show ?thesis by simp
    qed
    from Cons.prems(3) have "\<forall>p' t'. WriteText p' t' \<in> set xs \<longrightarrow>
      last p' \<noteq> last p
      \<or> (\<exists>a b. walk fs0 [] (butlast p') = Inr a \<and> walk fs0 [] (butlast p) = Inr b \<and> a \<noteq> b)"
      by simp
    from Cons.IH [OF r1 g1 this] Inr show ?thesis by simp
  qed
qed

lemma read_back:
  assumes "run (pre @ WriteText p t # post) w = (Inr (), w')"
    and "\<forall>p' t'. WriteText p' t' \<in> set post \<longrightarrow> last p' \<noteq> last p"
  shows "read_text (files w') p = Inr t"
proof -
  from assms(1) [unfolded run_success_append run_success_Cons]
  obtain w1 w2 where w1: "run pre w = (Inr (), w1)"
    and w2: "perform (WriteText p t) w1 = Inr w2" and w3: "run post w2 = (Inr (), w')"
    by blast
  from w2 have "read_text (files w2) p = Inr t"
    by (auto split: sum.splits dest: write_then_read)
  from run_keeps_text [OF this grows_refl, of post] assms(2) w3 show ?thesis by auto
qed


section \<open>The generated files after a successful run\<close>

lemmas path_defs = plugin_dir_def module_dir_def tests_dir_def manifest_file_def readme_file_def
  module_entry_file_def marker_file_def test_file_def test_config_file_def ignore_file_def
  module_name_of_def

lemma effects_split:
  "create_plugin_effects name output_dir =
     warn_effects name @ mkdir_effects output_dir name @ write_effects output_dir name
       @ print_effects output_dir name"
  by (simp add: create_plugin_effects_def Let_def warn_effects_def mkdir_effects_def
      write_effects_def print_effects_def generated_files_def path_defs)

lemma length_generated_files [simp]: "length (generated_files output_dir name) = 7"
  by (simp add: generated_files_def)

lemma print_effects_no_write: "WriteText p t \<notin> set (print_effects output_dir name)"
  by (simp add: print_effects_def)

text \<open>
  After a successful run a generated file holds the text written to it, provided every
  later write goes to a path with another last component.
\<close>

lemma read_back_file:
  assumes ok: "create_plugin name output_dir w = (Inr (), w')"
    and i: "i < 7"
    and later: "\<forall>q\<in>set (drop (Suc i) (map fst (generated_files output_dir name))).
                  last q \<noteq> last (fst (generated_files output_dir name ! i))"
  shows "read_text (files w') (fst (generated_files output_dir name ! i))
           = Inr (snd (generated_files output_dir name ! i))"
proof -
  let ?gf = "generated_files output_dir name"
  let ?ws = "write_effects output_dir name"
  let ?pre = "warn_effects name @ mkdir_effects output_dir name @ take i ?ws"
  let ?post = "drop (Suc i) ?ws @ print_effects output_dir name"
  have n: "?ws ! i = WriteText (fst (?gf ! i)) (snd (?gf ! i))"
    using i by (simp add: write_effects_def case_prod_beta)
  have "?ws = take i ?ws @ ?ws ! i # drop (Suc i) ?ws"
    using i by (intro id_take_nth_drop) (simp add: write_effects_def)
  then have "create_plugin_effects name output_dir
      = ?pre @ WriteText (fst (?gf ! i)) (snd (?gf ! i)) # ?post"
    unfolding effects_split n [symmetric] by simp
  with ok have r: "run (?pre @ WriteText (fst (?gf ! i)) (snd (?gf ! i)) # ?post) w = (Inr (), w')"
    by (simp add: create_plugin_def)
  have "last p' \<noteq> last (fst (?gf ! i))" if "WriteText p' t' \<in> set ?post" for p' t'
  proof -
    from that print_effects_no_write have "WriteText p' t' \<in> set (drop (Suc i) ?ws)"
      by auto
    then have "p' \<in> set (drop (Suc i) (map fst ?gf))"
      by (force simp: write_effects_def drop_map)
    with later show ?thesis by blast
  qed
  then show ?thesis
    by (intro read_back [OF r]) blast
qed

lemma test_file_ends_py: "\<exists>x. last (test_file output_dir name) = x @ ''.py''"
  unfolding test_file_def by (rule test_file_last)

lemma module_entry_last: "last (module_entry_file output_dir name) = ''__init__.py''"
  by (simp add: module_entry_file_def joinpath_literals)

lemma marker_last: "last (marker_file output_dir name) = ''__init__.py''"
  by (simp add: marker_file_def joinpath_literals)

lemma fixed_lasts:
  "last (manifest_file output_dir name) = ''pyproject.toml''"
  "last (readme_file output_dir name) = ''README.md''"
  "last (test_config_file output_dir name) = ''pytest.ini''"
  "last (ignore_file output_dir name) = ''.gitignore''"
  by (simp_all add: manifest_file_def readme_file_def test_config_file_def ignore_file_def
      joinpath_literals)

lemma manifest_read_back:
  assumes "create_plugin name output_dir w = (Inr (), w')"
  shows "read_text (files w') (manifest_file output_dir name)
           = Inr (pyproject name (module_name_of name))"
proof -
  obtain x where x: "last (test_file output_dir name) = x @ ''.py''"
    using test_file_ends_py by blast
  have "\<forall>q\<in>set (drop (Suc 0) (map fst (generated_files output_dir name))).
          last q \<noteq> last (fst (generated_files output_dir name ! 0))"
    using py_not_fixed [of x]
    by (simp add: generated_files_def fixed_lasts module_entry_last marker_last x)
  from read_back_file [OF assms _ this] show ?thesis
    by (simp add: generated_files_def)
qed

lemma readme_read_back:
  assumes "create_plugin name output_dir w = (Inr (), w')"
  shows "read_text (files w') (readme_file output_dir name) = Inr (readme name)"
proof -
  obtain x where x: "last (test_file output_dir name) = x @ ''.py''"
    using test_file_ends_py by blast
  have "\<forall>q\<in>set (drop (Suc 1) (map fst (generated_files output_dir name))).
          last q \<noteq> last (fst (generated_files output_dir name ! 1))"
    using py_not_fixed [of x]
    by (simp add: generated_files_def fixed_lasts module_entry_last marker_last x)
  from read_back_file [OF assms _ this] show ?thesis
    by (simp add: generated_files_def)
qed

lemma test_file_read_back:
  assumes "create_plugin name output_dir w = (Inr (), w')"
  shows "read_text (files w') (test_file output_dir name) = Inr (test_py name)"
proof -
  obtain x where x: "last (test_file output_dir name) = x @ ''.py''"
    using test_file_ends_py by blast
  have "\<forall>q\<in>set (drop (Suc 4) (map fst (generated_files output_dir name))).
          last q \<noteq> last (fst (generated_files output_dir name ! 4))"
    using py_not_fixed [of x, symmetric]
    by (simp add: generated_files_def fixed_lasts x)
  from read_back_file [OF assms _ this] show ?thesis
    by (simp add: generated_files_def)
qed

lemma test_config_read_back:
  assumes "create_plugin name output_dir w = (Inr (), w')"
  shows "read_text (files w') (test_config_file output_dir name) = Inr pytest_ini"
proof -
  have "\<forall>q\<in>set (drop (Suc 5) (map fst (generated_files output_dir name))).
          last q \<noteq> last (fst (generated_files output_dir name ! 5))"
    by (simp add: generated_files_def fixed_lasts)
  from read_back_file [OF assms _ this] show ?thesis
    by (simp add: generated_files_def)
qed

lemma ignore_read_back:
  assumes "create_plugin name output_dir w = (Inr (), w')"
  shows "read_text (files w') (ignore_file output_dir name) = Inr gitignore"
proof -
  have "\<forall>q\<in>set (drop (Suc 6) (map fst (generated_files output_dir name))).
          last q \<noteq> last (fst (generated_files output_dir name ! 6))"
    by (simp add: generated_files_def)
  from read_back_file [OF assms _ this] show ?thesis
    by (simp add: generated_files_def)
qed


lemma run_split:
  "run (pre @ x # post) w = (Inr (), w') \<Longrightarrow>
     \<exists>w1 w2. run pre w = (Inr (), w1) \<and> perform x w1 = Inr w2 \<and> run post w2 = (Inr (), w')"
  unfolding run_success_append run_success_Cons by blast

lemma run_completed_set:
  "run es w = (Inr (), w') \<Longrightarrow> x \<in> set es \<Longrightarrow> left_behind x w'"
  by (auto simp: in_set_conv_nth dest: run_completed)

lemma generated_file_exists:
  assumes "create_plugin name output_dir w = (Inr (), w')"
    and "(p, t) \<in> set (generated_files output_dir name)"
  shows "\<exists>t'. read_text (files w') p = Inr t'"
proof -
  from assms(2) have "WriteText p t \<in> set (create_plugin_effects name output_dir)"
    unfolding effects_split write_effects_def by force
  from run_completed_set [OF assms(1) [unfolded create_plugin_def] this]
  show ?thesis by (simp add: left_behind_def is_file_iff)
qed


lemma single_paths:
  assumes "single_component name"
  shows "plugin_dir output_dir name = output_dir @ [name]"
    and "module_dir output_dir name = output_dir @ [name, module_name_of name]"
    and "tests_dir output_dir name = output_dir @ [name, ''tests'']"
    and "manifest_file output_dir name = output_dir @ [name, ''pyproject.toml'']"
    and "readme_file output_dir name = output_dir @ [name, ''README.md'']"
    and "module_entry_file output_dir name = output_dir @ [name, module_name_of name, ''__init__.py'']"
    and "marker_file output_dir name = output_dir @ [name, ''tests'', ''__init__.py'']"
    and "test_file output_dir name
           = output_dir @ [name, ''tests'', ''test_'' @ module_name_of name @ ''.py'']"
    and "test_config_file output_dir name = output_dir @ [name, ''pytest.ini'']"
    and "ignore_file output_dir name = output_dir @ [name, ''.gitignore'']"
proof -
  from single_component_module [OF assms]
  have m: "single_component (module_name_of name)" by (simp add: module_name_of_def)
  then have t: "single_component (''test_'' @ module_name_of name @ ''.py'')"
    by (intro test_file_single) (simp add: single_component_def)
  show "plugin_dir output_dir name = output_dir @ [name]"
    and "module_dir output_dir name = output_dir @ [name, module_name_of name]"
    and "tests_dir output_dir name = output_dir @ [name, ''tests'']"
    and "manifest_file output_dir name = output_dir @ [name, ''pyproject.toml'']"
    and "readme_file output_dir name = output_dir @ [name, ''README.md'']"
    and "module_entry_file output_dir name = output_dir @ [name, module_name_of name, ''__init__.py'']"
    and "marker_file output_dir name = output_dir @ [name, ''tests'', ''__init__.py'']"
    and "test_config_file output_dir name = output_dir @ [name, ''pytest.ini'']"
    and "ignore_file output_dir name = output_dir @ [name, ''.gitignore'']"
    unfolding plugin_dir_def module_dir_def tests_dir_def manifest_file_def readme_file_def
      module_entry_file_def marker_file_def test_config_file_def ignore_file_def
    by (simp_all add: joinpath_single [OF assms] joinpath_single [OF m] joinpath_literals)
  have "test_file output_dir name
      = (output_dir @ [name] @ [''tests'']) @ [''test_'' @ module_name_of name @ ''.py'']"
    unfolding test_file_def tests_dir_def plugin_dir_def
    by (simp only: joinpath_single [OF assms] joinpath_single [OF t] joinpath_literals
        append_assoc)
  then show "test_file output_dir name
           = output_dir @ [name, ''tests'', ''test_'' @ module_name_of name @ ''.py'']"
    by simp
qed

lemma marker_read_back:
  assumes "create_plugin name output_dir w = (Inr (), w')" and "single_component name"
  shows "read_text (files w') (marker_file output_dir name) = Inr ''''"
proof -
  have "\<forall>q\<in>set (drop (Suc 3) (map fst (generated_files output_dir name))).
          last q \<noteq> last (fst (generated_files output_dir name ! 3))"
    by (simp add: generated_files_def single_paths [OF assms(2)])
  from read_back_file [OF assms(1) _ this] show ?thesis
    by (simp add: generated_files_def)
qed

lemma walk_child:
  assumes "is_dir fs (p @ [c])" and "c \<noteq> ''..''"
  shows "\<exists>r. walk fs [] p = Inr r \<and> walk fs [] (p @ [c]) = Inr (r @ [c])"
  using assms
  by (auto simp: is_dir_def walk_snoc split: sum.splits option.splits node.splits)

lemma module_entry_read_back:
  assumes ok: "create_plugin name output_dir w = (Inr (), w')" and s: "single_component name"
    and nt: "module_name_of name \<noteq> ''tests''"
  shows "read_text (files w') (module_entry_file output_dir name) = Inr (init_py name)"
proof -
  let ?ws = "write_effects output_dir name"
  let ?pre = "warn_effects name @ mkdir_effects output_dir name @ take 2 ?ws"
  let ?post = "drop 3 ?ws @ print_effects output_dir name"
  let ?p = "module_entry_file output_dir name"
  let ?root = "output_dir @ [name]"
  have es: "create_plugin_effects name output_dir = ?pre @ WriteText ?p (init_py name) # ?post"
    by (simp add: effects_split write_effects_def generated_files_def)
  from run_split [OF ok [unfolded create_plugin_def es]]
  obtain w1 w2 where w1: "run ?pre w = (Inr (), w1)"
    and w2: "perform (WriteText ?p (init_py name)) w1 = Inr w2"
    and w3: "run ?post w2 = (Inr (), w')"
    by blast
  have m: "single_component (module_name_of name)"
    using single_component_module [OF s] by (simp add: module_name_of_def)
  have "left_behind (Mkdir (module_dir output_dir name)) w1"
    and "left_behind (Mkdir (tests_dir output_dir name)) w1"
    by (rule run_completed_set [OF w1]; simp add: mkdir_effects_def)+
  then have dm: "is_dir (files w1) (?root @ [module_name_of name])"
    and dt: "is_dir (files w1) (?root @ [''tests''])"
    by (simp_all add: left_behind_def is_file_iff single_paths [OF s])
  from walk_child [OF dm] m obtain r where
    r: "walk (files w1) [] (?root @ [module_name_of name]) = Inr (r @ [module_name_of name])"
       "walk (files w1) [] ?root = Inr r"
    by (auto simp: single_component_def)
  from walk_child [OF dt] r(2)
  have t: "walk (files w1) [] (?root @ [''tests'']) = Inr (r @ [''tests''])"
    by auto
  from w2 have rd: "read_text (files w2) ?p = Inr (init_py name)"
    by (auto split: sum.splits dest: write_then_read)
  have g: "grows (files w1) (files w2)"
    using perform_grows [OF w2] .
  have "last p' \<noteq> last ?p
      \<or> (\<exists>a b. walk (files w1) [] (butlast p') = Inr a \<and> walk (files w1) [] (butlast ?p) = Inr b
            \<and> a \<noteq> b)"
    if "WriteText p' t' \<in> set ?post" for p' t'
  proof -
    from that consider "p' = marker_file output_dir name" | "p' = test_file output_dir name"
      | "p' = test_config_file output_dir name" | "p' = ignore_file output_dir name"
      by (auto simp: write_effects_def generated_files_def print_effects_def)
    then show ?thesis
    proof cases
      case 1
      have "butlast p' = ?root @ [''tests'']" "butlast ?p = ?root @ [module_name_of name]"
        using 1 by (simp_all add: single_paths [OF s] butlast_append)
      with r(1) t nt show ?thesis by auto
    qed (simp_all add: single_paths [OF s])
  qed
  from run_keeps_text [OF rd g, of ?post] this w3 show ?thesis by auto
qed

lemma templates_nonempty:
  "pyproject name m \<noteq> []" "readme name \<noteq> []" "init_py name \<noteq> []" "test_py name \<noteq> []"
  "pytest_ini \<noteq> []" "gitignore \<noteq> []"
  by (simp_all add: pyproject_def readme_def init_py_def test_py_def pytest_ini_def
      gitignore_def unlines_def)


section \<open>Contents of the generated files\<close>


lemma success_pair:
  "fst (create_plugin name output_dir w) = Inr () \<Longrightarrow>
     create_plugin name output_dir w = (Inr (), snd (create_plugin name output_dir w))"
  by (metis prod.collapse)

text \<open>
  Claim C4, as amended. After every successful run each of the seven generated paths is
  a regular file. The manifest, the readme, the test file, the test-runner configuration
  and the ignore file hold exactly the texts rendered for them, and none of the rendered
  texts is empty. When the name is a single path component the marker file is empty, and
  the module entry file holds its text provided the module name is not \<^verbatim>\<open>tests\<close>.
\<close>

theorem generated_files_after_success:
  assumes "fst (create_plugin name output_dir w) = Inr ()"
  shows "(\<forall>(p, t)\<in>set (generated_files output_dir name).
            \<exists>t'. read_text (files (snd (create_plugin name output_dir w))) p = Inr t')
    \<and> read_text (files (snd (create_plugin name output_dir w))) (manifest_file output_dir name)
        = Inr (pyproject name (module_name_of name))
    \<and> read_text (files (snd (create_plugin name output_dir w))) (readme_file output_dir name)
        = Inr (readme name)
    \<and> read_text (files (snd (create_plugin name output_dir w))) (test_file output_dir name)
        = Inr (test_py name)
    \<and> read_text (files (snd (create_plugin name output_dir w))) (test_config_file output_dir name)
        = Inr pytest_ini
    \<and> read_text (files (snd (create_plugin name output_dir w))) (ignore_file output_dir name)
        = Inr gitignore
    \<and> pyproject name (module_name_of name) \<noteq> [] \<and> readme name \<noteq> [] \<and> init_py name \<noteq> []
    \<and> test_py name \<noteq> [] \<and> pytest_ini \<noteq> [] \<and> gitignore \<noteq> []
    \<and> (single_component name \<longrightarrow>
          read_text (files (snd (create_plugin name output_dir w))) (marker_file output_dir name)
            = Inr '''')
    \<and> (single_component name \<and> module_name_of name \<noteq> ''tests'' \<longrightarrow>
          read_text (files (snd (create_plugin name output_dir w)))
            (module_entry_file output_dir name) = Inr (init_py name))"
proof -
  note ok = success_pair [OF assms]
  have "\<forall>(p, t)\<in>set (generated_files output_dir name).
            \<exists>t'. read_text (files (snd (create_plugin name output_dir w))) p = Inr t'"
    using generated_file_exists [OF ok] by blast
  with manifest_read_back [OF ok] readme_read_back [OF ok] test_file_read_back [OF ok]
    test_config_read_back [OF ok] ignore_read_back [OF ok] marker_read_back [OF ok]
    module_entry_read_back [OF ok] templates_nonempty
  show ?thesis by blast
qed

theorem generated_files_after_success_witness:
  "fst (create_plugin ''datasette-x'' [''o''] \<lparr>files = Map.empty, stdout = []\<rparr>) = Inr ()
   \<and> single_component ''datasette-x'' \<and> module_name_of ''datasette-x'' \<noteq> ''tests''
   \<and> read_text (files (snd (create_plugin ''datasette-x'' [''o''] \<lparr>files = Map.empty, stdout = []\<rparr>)))
        (module_entry_file [''o''] ''datasette-x'') = Inr (init_py ''datasette-x'')
   \<and> read_text (files (snd (create_plugin ''datasette-x'' [''o''] \<lparr>files = Map.empty, stdout = []\<rparr>)))
        (marker_file [''o''] ''datasette-x'') = Inr ''''
   \<and> read_text (files (snd (create_plugin ''datasette-x'' [''o''] \<lparr>files = Map.empty, stdout = []\<rparr>)))
        (manifest_file [''o''] ''datasette-x'') = Inr (pyproject ''datasette-x'' ''datasette_x'')"
proof -
  have ok: "fst (create_plugin ''datasette-x'' [''o''] \<lparr>files = Map.empty, stdout = []\<rparr>) = Inr ()"
    by (simp add: eval_defs)
  have s: "single_component ''datasette-x''"
    by (simp add: single_component_def)
  have m: "module_name_of ''datasette-x'' = ''datasette_x''"
    by (simp add: module_name_of_def)
  from generated_files_after_success [OF ok] ok s m show ?thesis by simp
qed

text \<open>
  For the name \<^verbatim>\<open>tests\<close> the module directory is the tests directory, the module entry
  file is the marker file, and the run succeeds and leaves it empty.
\<close>

theorem module_entry_file_empty_for_tests:
  "fst (create_plugin ''tests'' [''o''] \<lparr>files = Map.empty, stdout = []\<rparr>) = Inr ()
   \<and> read_text (files (snd (create_plugin ''tests'' [''o''] \<lparr>files = Map.empty, stdout = []\<rparr>)))
        (module_entry_file [''o''] ''tests'') = Inr ''''"
  by (simp add: eval_defs read_text_def path_defs)







section \<open>Runs that succeed\<close>





lemma with_dirs_nil [simp]: "with_dirs fs [] = fs"
  by (simp add: with_dirs_def)



lemma file_at_with_dirs [simp]: "file_at (with_dirs fs ps) q = file_at fs q"
  by (auto simp: file_at_def with_dirs_def split: option.splits node.splits)


















section \<open>The warning does not stop the run\<close>




lemma effects_prefixed:
  "startswith name ''datasette-'' \<Longrightarrow>
     create_plugin_effects name output_dir
       = mkdir_effects output_dir name @ write_effects output_dir name
         @ print_effects output_dir name"
  by (simp add: effects_split warn_effects_def)






section \<open>The directory tree\<close>












section \<open>The module name\<close>

lemma module_dir_effect:
  "Mkdir (joinpath (joinpath output_dir name) (str_replace name ''-'' ''_''))
     \<in> set (create_plugin_effects name output_dir)"
  by (simp add: create_plugin_effects_def Let_def)

text \<open>
  Claim C2. The module name, \<^verbatim>\<open>name.replace("-", "_")\<close>, is the plugin name with every
  hyphen replaced by an underscore and every other character kept in place: a total
  function of the name alone, whatever its letters and its length. It is this string
  that names the module directory the generator makes.
\<close>

theorem module_name_replaces_every_hyphen:
  "str_replace name ''-'' ''_'' = map (\<lambda>c. if c = CHR ''-'' then CHR ''_'' else c) name
   \<and> length (str_replace name ''-'' ''_'') = length name
   \<and> CHR ''-'' \<notin> set (str_replace name ''-'' ''_'')
   \<and> Mkdir (joinpath (joinpath output_dir name)
         (map (\<lambda>c. if c = CHR ''-'' then CHR ''_'' else c) name))
       \<in> set (create_plugin_effects name output_dir)"
proof -
  have m: "str_replace name ''-'' ''_'' = map (\<lambda>c. if c = CHR ''-'' then CHR ''_'' else c) name"
    by (rule str_replace_char)
  have "CHR ''-'' \<notin> set (map (\<lambda>c. if c = CHR ''-'' then CHR ''_'' else c) name)"
    by auto
  with m module_dir_effect [of output_dir name] show ?thesis by simp
qed

section \<open>The version literal\<close>





section \<open>The entry point\<close>

lemma str_replace_absent:
  "old \<noteq> [] \<Longrightarrow> \<forall>a b. s \<noteq> a @ old @ b \<Longrightarrow> str_replace s old new = s"
proof (induction s)
  case Nil
  then show ?case by simp
next
  case (Cons c s)
  have "\<not> startswith (c # s) old"
  proof
    assume "startswith (c # s) old"
    then obtain r where "c # s = old @ r" unfolding startswith_iff by blast
    then have "c # s = [] @ old @ r" by simp
    with Cons.prems(2) show False by blast
  qed
  moreover have "\<forall>a b. s \<noteq> a @ old @ b"
  proof (intro allI notI)
    fix a b assume "s = a @ old @ b"
    then have "c # s = (c # a) @ old @ b" by simp
    with Cons.prems(2) show False by blast
  qed
  ultimately show ?case using Cons.IH Cons.prems(1) by simp
qed

text \<open>
  Where the module name starts with the prefix and holds no other occurrence of it, the
  key is the module name without the prefix.
\<close>

lemma entry_point_key_prefix_only:
  assumes "\<forall>a b. r \<noteq> a @ ''datasette_'' @ b"
  shows "str_replace (''datasette_'' @ r) ''datasette_'' '''' = r"
    and "removeprefix (''datasette_'' @ r) ''datasette_'' = r"
proof -
  have "str_replace (''datasette_'' @ r) ''datasette_'' ''''
      = str_replace r ''datasette_'' ''''"
    by simp
  also have "\<dots> = r"
    using assms by (intro str_replace_absent) simp_all
  finally show "str_replace (''datasette_'' @ r) ''datasette_'' '''' = r" .
  show "removeprefix (''datasette_'' @ r) ''datasette_'' = r"
    by (simp add: removeprefix_def)
qed

text \<open>
  Claim C1, at the name \<^verbatim>\<open>datasette-my-datasette-plugin\<close>. The module name is
  \<^verbatim>\<open>datasette_my_datasette_plugin\<close>; removing its leading prefix gives
  \<^verbatim>\<open>my_datasette_plugin\<close>, but \<^verbatim>\<open>replace\<close> removes the second occurrence too and the
  manifest declares the entry point under the key \<^verbatim>\<open>my_plugin\<close>. The value is the
  module name.
\<close>

theorem entry_point_key_drops_inner_occurrence:
  \<open>str_replace ''datasette-my-datasette-plugin'' ''-'' ''_'' = ''datasette_my_datasette_plugin''
   \<and> str_replace ''datasette_my_datasette_plugin'' ''datasette_'' '''' = ''my_plugin''
   \<and> removeprefix ''datasette_my_datasette_plugin'' ''datasette_'' = ''my_datasette_plugin''
   \<and> pyproject ''datasette-my-datasette-plugin''
         (str_replace ''datasette-my-datasette-plugin'' ''-'' ''_'')
       = unlines
       [''[project]'',
        ''name = "datasette-my-datasette-plugin"'',
        ''version = "0.1.0"'',
        ''description = "A Datasette plugin"'',
        ''readme = "README.md"'',
        ''requires-python = ">=3.10"'',
        ''license = {text = "Apache-2.0"}'',
        ''authors = ['',
        ''    {name = "Your Name", email = "you@example.com"}'',
        '']'',
        ''dependencies = ['',
        ''    "datasette"'',
        '']'',
        ''[dependency-groups]'',
        ''dev = ['',
        ''    "pytest",'',
        ''    "pytest-asyncio"'',
        '']'',
        '''',
        ''[project.entry-points.datasette]'',
        ''my_plugin = "datasette_my_datasette_plugin"'',
        '''',
        ''[build-system]'',
        ''requires = ["setuptools>=61.0"]'',
        ''build-backend = "setuptools.build_meta"'']\<close>
  by (simp add: removeprefix_def pyproject_def)

end
